theory Spec2Isabelle
  imports Main "HOL-Library.Sublist"
begin

section \<open>Values, errors and output\<close>

text \<open>
  Both handlers receive their event as the Python value of a JSON document and use it
  untyped. The value is kept as it arrives: a dict is a list of key/value pairs in
  insertion order (looked up with \<open>map_of\<close>; a dict read from JSON has each key once).
  Numbers are never inspected by either handler (they cannot be subscripted, iterated
  or searched, and never equal a string), so one constructor stands for both of Python's
  number types.
\<close>

datatype json =
    JNull
  | JBool bool
  | JNum int
  | JStr string
  | JArr "json list"
  | JObj "(string \<times> json) list"

text \<open>A subscript \<open>x[k]\<close> as the handlers write it: a string key or an integer index.\<close>

datatype subscr = Key string | Index int

text \<open>
  What an invocation can raise. \<open>Malformed\<close> is the validator's own
  \<^verbatim>\<open>Exception(f"Malformed record detected: {new_image}")\<close>, carrying the value its
  message is built from; the others are Python's lookup errors and whatever the
  storage, parsing and table services raise.
\<close>

datatype error =
    Malformed json
  | KeyError subscr
  | IndexError
  | TypeError
  | ServiceError string

text \<open>
  One constructor per \<^verbatim>\<open>print\<close> statement of the two files; the argument is the value
  the line is formatted from.
\<close>

datatype log =
    Received json
  | Processing json
  | Processed json
  | ReceivedEvent json
  | Inserting json

definition py_print :: "log \<Rightarrow> log list \<Rightarrow> log list" where
  "py_print l out = out @ [l]"

section \<open>The Python operations the handlers apply to the event\<close>

text \<open>
  \<open>x[k]\<close>. A dict raises KeyError on an absent key (a dict read from JSON has string
  keys only, so an integer is always absent); a list or a string takes integer
  indices (\<open>py_index\<close>: negative ones count from the end, and an index outside the
  sequence raises IndexError) and raises TypeError on a string key; nothing else can be
  subscripted.
\<close>

fun py_index :: "'a list \<Rightarrow> int \<Rightarrow> 'a option" where
  "py_index xs i =
     (if 0 \<le> i \<and> i < int (length xs) then Some (xs ! nat i)
      else if i < 0 \<and> - int (length xs) \<le> i then Some (xs ! nat (int (length xs) + i))
      else None)"

fun subscript :: "json \<Rightarrow> subscr \<Rightarrow> error + json" where
  "subscript (JObj kvs) (Key k) =
     (case map_of kvs k of None \<Rightarrow> Inl (KeyError (Key k)) | Some v \<Rightarrow> Inr v)"
| "subscript (JObj kvs) (Index i) = Inl (KeyError (Index i))"
| "subscript (JArr xs) (Index i) =
     (case py_index xs i of None \<Rightarrow> Inl IndexError | Some v \<Rightarrow> Inr v)"
| "subscript (JStr s) (Index i) =
     (case py_index s i of None \<Rightarrow> Inl IndexError | Some c \<Rightarrow> Inr (JStr [c]))"
| "subscript _ _ = Inl TypeError"

text \<open>\<open>x[k1][k2]...\<close>, left to right; the first failing subscript raises.\<close>

fun subscripts :: "json \<Rightarrow> subscr list \<Rightarrow> error + json" where
  "subscripts x [] = Inr x"
| "subscripts x (k # ks) =
     (case subscript x k of Inl e \<Rightarrow> Inl e | Inr v \<Rightarrow> subscripts v ks)"

text \<open>
  \<open>k in x\<close> for a string \<open>k\<close>: key membership in a dict, element membership in a
  list, substring test in a string, TypeError otherwise.
\<close>

fun py_in :: "string \<Rightarrow> json \<Rightarrow> error + bool" where
  "py_in k (JObj kvs) = Inr (k \<in> set (map fst kvs))"
| "py_in k (JArr xs) = Inr (JStr k \<in> set xs)"
| "py_in k (JStr s) = Inr (sublist k s)"
| "py_in k _ = Inl TypeError"

text \<open>
  \<open>for r in x\<close>: the elements of a list, the keys of a dict, the characters of a
  string; nothing else can be iterated.
\<close>

fun py_iter :: "json \<Rightarrow> error + json list" where
  "py_iter (JArr xs) = Inr xs"
| "py_iter (JObj kvs) = Inr (map (\<lambda>kv. JStr (fst kv)) kvs)"
| "py_iter (JStr s) = Inr (map (\<lambda>c. JStr [c]) s)"
| "py_iter _ = Inl TypeError"

section \<open>dynodb\_data\_validate\_with\_dlq.py: the batch validator\<close>

text \<open>
  Standard output is the only state the validator touches; it is threaded through as
  the list of lines printed so far. A raised error leaves the lines already printed.
\<close>

text \<open>Line 8: \<^verbatim>\<open>new_image = record['dynamodb']['NewImage']\<close>.\<close>

definition new_image_of :: "json \<Rightarrow> error + json" where
  "new_image_of r = subscripts r [Key ''dynamodb'', Key ''NewImage'']"

text \<open>Line 16: \<^verbatim>\<open>new_image['id']['S']\<close>.\<close>

definition record_id :: "json \<Rightarrow> error + json" where
  "record_id new_image = subscripts new_image [Key ''id'', Key ''S'']"

text \<open>Lines 8 to 16: the body of the loop, for one record.\<close>

definition process_record :: "json \<Rightarrow> log list \<Rightarrow> (error + unit) \<times> log list" where
  "process_record r out =
     (case new_image_of r of
        Inl e \<Rightarrow> (Inl e, out)
      | Inr new_image \<Rightarrow>
          (let out1 = py_print (Processing new_image) out in
           case py_in ''value'' new_image of
             Inl e \<Rightarrow> (Inl e, out1)
           | Inr present \<Rightarrow>
               if \<not> present then (Inl (Malformed new_image), out1)
               else (case record_id new_image of
                       Inl e \<Rightarrow> (Inl e, out1)
                     | Inr s \<Rightarrow> (Inr (), py_print (Processed s) out1))))"

text \<open>Line 7: the loop; the first record that raises ends it.\<close>

fun process_records :: "json list \<Rightarrow> log list \<Rightarrow> (error + unit) \<times> log list" where
  "process_records [] out = (Inr (), out)"
| "process_records (r # rest) out =
     (case process_record r out of
        (Inl e, out1) \<Rightarrow> (Inl e, out1)
      | (Inr u, out1) \<Rightarrow> process_records rest out1)"

definition status_ok :: json where
  "status_ok = JObj [(''statusCode'', JNum 200)]"

text \<open>Lines 3 to 20. The context argument is never read.\<close>

definition validator_lambda_handler ::
  "json \<Rightarrow> 'c \<Rightarrow> log list \<Rightarrow> (error + json) \<times> log list" where
  "validator_lambda_handler event context out =
     (let out0 = py_print (Received event) out in
      case subscript event (Key ''Records'') of
        Inl e \<Rightarrow> (Inl e, out0)
      | Inr records \<Rightarrow>
          (case py_iter records of
             Inl e \<Rightarrow> (Inl e, out0)
           | Inr recs \<Rightarrow>
               (case process_records recs out0 of
                  (Inl e, out1) \<Rightarrow> (Inl e, out1)
                | (Inr u, out1) \<Rightarrow> (Inr status_ok, out1))))"

text \<open>
  The validator with its three \<^verbatim>\<open>print\<close> statements erased (lines 4, 9 and 16), and
  nothing else changed: what the invocation would return if it logged nothing. It is
  the yardstick for whether logging influences the result.
\<close>

definition check_record :: "json \<Rightarrow> error + unit" where
  "check_record r =
     (case new_image_of r of
        Inl e \<Rightarrow> Inl e
      | Inr new_image \<Rightarrow>
          (case py_in ''value'' new_image of
             Inl e \<Rightarrow> Inl e
           | Inr present \<Rightarrow> if \<not> present then Inl (Malformed new_image) else Inr ()))"

fun check_records :: "json list \<Rightarrow> error + unit" where
  "check_records [] = Inr ()"
| "check_records (r # rest) =
     (case check_record r of Inl e \<Rightarrow> Inl e | Inr u \<Rightarrow> check_records rest)"

definition validator_without_log :: "json \<Rightarrow> error + json" where
  "validator_without_log event =
     (case subscript event (Key ''Records'') of
        Inl e \<Rightarrow> Inl e
      | Inr records \<Rightarrow>
          (case py_iter records of
             Inl e \<Rightarrow> Inl e
           | Inr recs \<Rightarrow>
               (case check_records recs of
                  Inl e \<Rightarrow> Inl e
                | Inr u \<Rightarrow> Inr status_ok)))"

text \<open>
  The event shape of the change feed, as the platform builds it: a \<open>Records\<close>
  sequence whose records hold the entry's image under \<open>dynamodb.NewImage\<close>, each
  attribute wrapped with its wire type (\<open>{"S": "abc"}\<close> for a string). Used to
  build concrete batches.
\<close>

definition attr_S :: "string \<Rightarrow> json" where
  "attr_S s = JObj [(''S'', JStr s)]"

definition entry :: "(string \<times> json) list \<Rightarrow> json" where
  "entry img = JObj [(''dynamodb'', JObj [(''NewImage'', JObj img)])]"

definition batch :: "(string \<times> json) list list \<Rightarrow> json" where
  "batch imgs = JObj [(''Records'', JArr (map entry imgs))]"

section \<open>s3\_to\_dynodb.py: the object-to-table copier\<close>

text \<open>
  The copier talks to three collaborators that are not code of the repository: the
  object store (\<^verbatim>\<open>s3.get_object(...)['Body'].read()\<close>), the JSON parser
  (\<^verbatim>\<open>json.loads\<close>) and the table service (\<^verbatim>\<open>table.put_item\<close>). They are
  parameters of the model; each may raise. The table service is a transformer of the
  table's contents, whatever their representation \<open>'t\<close>.
\<close>

record 't services =
  get_object :: "json \<Rightarrow> json \<Rightarrow> error + string"
  loads :: "string \<Rightarrow> error + json"
  put_item :: "string \<Rightarrow> json \<Rightarrow> 't \<Rightarrow> error + 't"

text \<open>The requests an invocation sends, in the order it sends them.\<close>

datatype call = GetObject json json | PutItem string json

record 't world =
  stdout :: "log list"
  calls :: "call list"
  table :: 't

text \<open>Line 8: \<^verbatim>\<open>table = dynamodb.Table("dynotbl_1")\<close>.\<close>

definition table_name :: string where
  "table_name = ''dynotbl_1''"

text \<open>Lines 25 to 27: print the record, then write it; a failed write ends the loop.\<close>

fun insert_records ::
  "'t services \<Rightarrow> json list \<Rightarrow> 't world \<Rightarrow> (error + unit) \<times> 't world" where
  "insert_records sv [] w = (Inr (), w)"
| "insert_records sv (r # rest) w =
     (let w1 = w\<lparr>stdout := py_print (Inserting r) (stdout w),
                 calls := calls w @ [PutItem table_name r]\<rparr>
      in case put_item sv table_name r (table w1) of
           Inl e \<Rightarrow> (Inl e, w1)
         | Inr t \<Rightarrow> insert_records sv rest (w1\<lparr>table := t\<rparr>))"

definition inserted_ok :: json where
  "inserted_ok =
     JObj [(''statusCode'', JNum 200), (''body'', JStr ''Data inserted into DynamoDB'')]"

text \<open>Lines 16 and 17: where the bucket name and the object key are read.\<close>

definition bucket_path :: "subscr list" where
  "bucket_path = [Key ''Records'', Index 0, Key ''s3'', Key ''bucket'', Key ''name'']"

definition key_path :: "subscr list" where
  "key_path = [Key ''Records'', Index 0, Key ''s3'', Key ''object'', Key ''key'']"

text \<open>Lines 12 to 32. The context argument is never read.\<close>

definition copier_lambda_handler ::
  "'t services \<Rightarrow> json \<Rightarrow> 'c \<Rightarrow> 't world \<Rightarrow> (error + json) \<times> 't world" where
  "copier_lambda_handler sv event context w =
     (let w0 = w\<lparr>stdout := py_print (ReceivedEvent event) (stdout w)\<rparr> in
      case subscripts event bucket_path of
        Inl e \<Rightarrow> (Inl e, w0)
      | Inr bucket \<Rightarrow>
          (case subscripts event key_path of
             Inl e \<Rightarrow> (Inl e, w0)
           | Inr key \<Rightarrow>
               (let w1 = w0\<lparr>calls := calls w0 @ [GetObject bucket key]\<rparr> in
                case get_object sv bucket key of
                  Inl e \<Rightarrow> (Inl e, w1)
                | Inr content \<Rightarrow>
                    (case loads sv content of
                       Inl e \<Rightarrow> (Inl e, w1)
                     | Inr records \<Rightarrow>
                         (case py_iter records of
                            Inl e \<Rightarrow> (Inl e, w1)
                          | Inr recs \<Rightarrow>
                              (case insert_records sv recs w1 of
                                 (Inl e, w2) \<Rightarrow> (Inl e, w2)
                               | (Inr u, w2) \<Rightarrow> (Inr inserted_ok, w2)))))))"

text \<open>
  The notification the object store sends, and one concrete set of collaborators to run
  the copier against: a store holding two objects, a parser that knows their contents,
  and a table keyed by \<open>id\<close> that, as a keyed table does, replaces the item with the
  same key and rejects an item without one.
\<close>

definition s3_record :: "string \<Rightarrow> string \<Rightarrow> json" where
  "s3_record b k =
     JObj [(''s3'', JObj [(''bucket'', JObj [(''name'', JStr b)]),
                          (''object'', JObj [(''key'', JStr k)])])]"

definition s3_event :: "json list \<Rightarrow> json" where
  "s3_event rs = JObj [(''Records'', JArr rs)]"

definition keyed_upsert :: "json \<Rightarrow> json list \<Rightarrow> json list" where
  "keyed_upsert item t =
     filter (\<lambda>old. subscript old (Key ''id'') \<noteq> subscript item (Key ''id'')) t @ [item]"

definition keyed_put_item :: "string \<Rightarrow> json \<Rightarrow> json list \<Rightarrow> error + json list" where
  "keyed_put_item tn item t =
     (case subscript item (Key ''id'') of
        Inl e \<Rightarrow> Inl (ServiceError ''ValidationException'')
      | Inr k \<Rightarrow> Inr (keyed_upsert item t))"

definition example_services :: "json list services" where
  "example_services =
     \<lparr>get_object = (\<lambda>b k.
          if b = JStr ''inbox'' \<and> k = JStr ''items.json'' then Inr ''items''
          else if b = JStr ''inbox'' \<and> k = JStr ''keyless.json'' then Inr ''keyless''
          else Inl (ServiceError ''NoSuchKey'')),
       loads = (\<lambda>s.
          if s = ''items''
          then Inr (JArr [JObj [(''id'', JStr ''1''), (''value'', JStr ''x'')],
                          JObj [(''id'', JStr ''2'')],
                          JObj [(''id'', JStr ''1''), (''value'', JStr ''y'')]])
          else if s = ''keyless''
          then Inr (JArr [JObj [(''id'', JStr ''1'')], JObj [(''name'', JStr ''n'')],
                          JObj [(''id'', JStr ''3'')]])
          else Inl (ServiceError ''JSONDecodeError'')),
       put_item = keyed_put_item\<rparr>"

definition empty_world :: "json list world" where
  "empty_world = \<lparr>stdout = [], calls = [], table = []\<rparr>"

section \<open>Properties of the validator\<close>

lemma process_records_append:
  "process_records (xs @ ys) out =
     (case process_records xs out of
        (Inl e, out1) \<Rightarrow> (Inl e, out1)
      | (Inr u, out1) \<Rightarrow> process_records ys out1)"
  by (induction xs arbitrary: out) (auto split: prod.splits sum.splits)

lemma subscript_not_malformed: "subscript x k \<noteq> Inl (Malformed y)"
  by (cases "(x, k)" rule: subscript.cases) (auto simp: Let_def split: option.splits)

lemma subscripts_not_malformed: "subscripts x ks \<noteq> Inl (Malformed y)"
  by (induction ks arbitrary: x) (auto simp: subscript_not_malformed split: sum.splits)

lemma new_image_not_malformed: "new_image_of r \<noteq> Inl (Malformed y)"
  unfolding new_image_of_def by (rule subscripts_not_malformed)

lemma record_id_not_malformed: "record_id x \<noteq> Inl (Malformed y)"
  unfolding record_id_def by (rule subscripts_not_malformed)

lemma record_id_JObj:
  "record_id (JObj img) = Inr s \<longleftrightarrow>
     (\<exists>i. map_of img ''id'' = Some (JObj i) \<and> map_of i ''S'' = Some s)"
proof (cases "map_of img ''id''")
  case None
  then show ?thesis by (simp add: record_id_def)
next
  case (Some v)
  then show ?thesis
    by (cases v) (auto simp: record_id_def split: option.splits)
qed

lemma process_record_accept:
  assumes "new_image_of r = Inr (JObj img)" and "''value'' \<in> fst ` set img"
    and "record_id (JObj img) = Inr s"
  shows "process_record r out = (Inr (), out @ [Processing (JObj img), Processed s])"
  using assms by (simp add: process_record_def py_print_def)

lemma process_record_reject:
  assumes "new_image_of r = Inr (JObj img)" and "''value'' \<notin> fst ` set img"
  shows "process_record r out = (Inl (Malformed (JObj img)), out @ [Processing (JObj img)])"
  using assms by (simp add: process_record_def py_print_def)

lemma process_record_no_id:
  assumes "new_image_of r = Inr (JObj img)" and "''value'' \<in> fst ` set img"
    and "record_id (JObj img) = Inl e"
  shows "process_record r out = (Inl e, out @ [Processing (JObj img)])"
  using assms by (simp add: process_record_def py_print_def)

lemma process_record_no_image:
  assumes "new_image_of r = Inl e"
  shows "process_record r out = (Inl e, out)"
  using assms by (simp add: process_record_def)

lemma process_records_accept_all:
  assumes "map new_image_of recs = map (\<lambda>img. Inr (JObj img)) imgs"
    and "\<forall>img\<in>set imgs. ''value'' \<in> fst ` set img"
    and "map (\<lambda>img. record_id (JObj img)) imgs = map Inr ids"
  shows "process_records recs out =
           (Inr (), out @ concat (map2 (\<lambda>img s. [Processing (JObj img), Processed s]) imgs ids))"
  using assms
proof (induction recs arbitrary: imgs ids out)
  case Nil
  then show ?case by simp
next
  case (Cons r recs)
  from Cons.prems(1) obtain img imgs' where imgs: "imgs = img # imgs'"
    and r: "new_image_of r = Inr (JObj img)"
    and rest: "map new_image_of recs = map (\<lambda>img. Inr (JObj img)) imgs'"
    by (cases imgs) auto
  from Cons.prems(3) imgs obtain s ids' where ids: "ids = s # ids'"
    and s: "record_id (JObj img) = Inr s"
    and rest_ids: "map (\<lambda>img. record_id (JObj img)) imgs' = map Inr ids'"
    by (cases ids) auto
  from Cons.prems(2) imgs have v: "''value'' \<in> fst ` set img"
    and vs: "\<forall>img\<in>set imgs'. ''value'' \<in> fst ` set img" by auto
  show ?case
    using process_record_accept [OF r v s] Cons.IH [OF rest vs rest_ids] imgs ids
    by simp
qed

lemma process_record_out:
  "process_record r out = (fst (process_record r []), out @ snd (process_record r []))"
  by (simp add: process_record_def py_print_def Let_def split: sum.splits)

lemma process_records_out:
  "process_records recs out =
     (fst (process_records recs []), out @ snd (process_records recs []))"
proof (induction recs arbitrary: out)
  case Nil
  then show ?case by simp
next
  case (Cons r recs)
  obtain res o1 where one: "process_record r [] = (res, o1)"
    by (cases "process_record r []")
  have here: "process_record r out = (res, out @ o1)"
    using process_record_out [of r out] one by simp
  show ?case
  proof (cases res)
    case (Inl e)
    with one here show ?thesis by simp
  next
    case (Inr u)
    have "process_records (r # recs) out = process_records recs (out @ o1)"
      using here Inr by simp
    also have "\<dots> = (fst (process_records recs []), (out @ o1) @ snd (process_records recs []))"
      by (rule Cons.IH)
    finally have lhs: "process_records (r # recs) out =
        (fst (process_records recs []), out @ o1 @ snd (process_records recs []))"
      by simp
    have "process_records (r # recs) [] = process_records recs o1"
      using one Inr by simp
    also have "\<dots> = (fst (process_records recs []), o1 @ snd (process_records recs []))"
      by (rule Cons.IH)
    finally show ?thesis using lhs by simp
  qed
qed

lemma validator_out:
  "validator_lambda_handler event ctx out =
     (fst (validator_lambda_handler event ctx' []), out @ snd (validator_lambda_handler event ctx' []))"
proof -
  have split: "process_records recs out1 = (fst (process_records recs []), out1 @ snd (process_records recs []))"
    for recs out1 by (rule process_records_out)
  show ?thesis
    unfolding validator_lambda_handler_def Let_def py_print_def
    apply (simp split: sum.splits prod.splits)
    apply (intro allI impI conjI)
    apply (metis split fst_conv snd_conv append.assoc sum.distinct(1) sum.inject)+
    done
qed

lemma process_records_fail:
  assumes "map new_image_of recs = map (\<lambda>img. Inr (JObj img)) imgs"
    and "\<exists>img\<in>set imgs. ''value'' \<notin> fst ` set img"
  shows "\<exists>e. fst (process_records recs out) = Inl e"
  using assms
proof (induction recs arbitrary: imgs out)
  case Nil
  then show ?case by simp
next
  case (Cons r recs)
  from Cons.prems(1) obtain img imgs' where imgs: "imgs = img # imgs'"
    and r: "new_image_of r = Inr (JObj img)"
    and rest: "map new_image_of recs = map (\<lambda>img. Inr (JObj img)) imgs'"
    by (cases imgs) auto
  show ?case
  proof (cases "''value'' \<in> fst ` set img")
    case False
    then show ?thesis using process_record_reject [OF r False] by simp
  next
    case True
    with Cons.prems(2) imgs have bad: "\<exists>img\<in>set imgs'. ''value'' \<notin> fst ` set img"
      by auto
    show ?thesis
    proof (cases "record_id (JObj img)")
      case (Inl e)
      then show ?thesis using process_record_no_id [OF r True Inl] by simp
    next
      case (Inr s)
      then show ?thesis
        using process_record_accept [OF r True Inr] Cons.IH [OF rest bad] by simp
    qed
  qed
qed

lemma process_records_malformed:
  assumes "map new_image_of recs = map (\<lambda>img. Inr (JObj img)) imgs"
    and "\<exists>img\<in>set imgs. ''value'' \<notin> fst ` set img"
    and "\<forall>img\<in>set (takeWhile (\<lambda>img. ''value'' \<in> fst ` set img) imgs).
           \<exists>s. record_id (JObj img) = Inr s"
  shows "\<exists>x. fst (process_records recs out) = Inl (Malformed x)"
  using assms
proof (induction recs arbitrary: imgs out)
  case Nil
  then show ?case by simp
next
  case (Cons r recs)
  from Cons.prems(1) obtain img imgs' where imgs: "imgs = img # imgs'"
    and r: "new_image_of r = Inr (JObj img)"
    and rest: "map new_image_of recs = map (\<lambda>img. Inr (JObj img)) imgs'"
    by (cases imgs) auto
  show ?case
  proof (cases "''value'' \<in> fst ` set img")
    case False
    then show ?thesis using process_record_reject [OF r False] by simp
  next
    case True
    with Cons.prems(2) imgs have bad: "\<exists>img\<in>set imgs'. ''value'' \<notin> fst ` set img"
      by auto
    from Cons.prems(3) imgs True obtain s where s: "record_id (JObj img) = Inr s"
      by auto
    from Cons.prems(3) imgs True
    have ids: "\<forall>img\<in>set (takeWhile (\<lambda>img. ''value'' \<in> fst ` set img) imgs').
                 \<exists>s. record_id (JObj img) = Inr s"
      by simp
    show ?thesis
      using process_record_accept [OF r True s] Cons.IH [OF rest bad ids] by simp
  qed
qed

text \<open>
  C5. For the empty batch (the event's Records is the empty sequence) the handler
  returns the success result with statusCode 200 and prints nothing but the line for
  the received batch: no entry is reported.
\<close>

theorem empty_batch_succeeds:
  assumes "subscript event (Key ''Records'') = Inr (JArr [])"
  shows "validator_lambda_handler event ctx out =
           (Inr (JObj [(''statusCode'', JNum 200)]), out @ [Received event])"
  using assms by (simp add: validator_lambda_handler_def status_ok_def py_print_def)

theorem empty_batch_succeeds_witness:
  "validator_lambda_handler (JObj [(''Records'', JArr [])]) () [] =
     (Inr (JObj [(''statusCode'', JNum 200)]), [Received (JObj [(''Records'', JArr [])])])"
  using empty_batch_succeeds [of "JObj [(''Records'', JArr [])]" "()" "[]"] by simp

lemma validator_on_records:
  assumes "subscript event (Key ''Records'') = Inr (JArr recs)"
  shows "validator_lambda_handler event ctx out =
           (case process_records recs (out @ [Received event]) of
              (Inl e, out1) \<Rightarrow> (Inl e, out1)
            | (Inr u, out1) \<Rightarrow> (Inr (JObj [(''statusCode'', JNum 200)]), out1))"
  unfolding validator_lambda_handler_def status_ok_def py_print_def Let_def
  using assms by simp

lemma batch_records: "subscript (batch imgs) (Key ''Records'') = Inr (JArr (map entry imgs))"
  by (simp add: batch_def)

lemma entry_image: "new_image_of (entry img) = Inr (JObj img)"
  by (simp add: entry_def new_image_of_def)

lemma batch_images: "map new_image_of (map entry imgs) = map (\<lambda>img. Inr (JObj img)) imgs"
  by (simp add: entry_image)

text \<open>
  C1, as amended. For every batch containing at least one entry whose newImage lacks
  a \<open>value\<close> field, the handler raises and returns no success result, however many
  valid entries precede or follow that entry. The error raised is the validator's
  \<open>Malformed\<close> error whenever every entry before the first entry lacking
  \<open>value\<close> has an \<open>id\<close> field holding a mapping with an \<open>S\<close> key, which is what the
  acceptance line reads.
\<close>

theorem malformed_batch_fails:
  assumes "subscript event (Key ''Records'') = Inr (JArr recs)"
    and "map new_image_of recs = map (\<lambda>img. Inr (JObj img)) imgs"
    and "\<exists>img\<in>set imgs. ''value'' \<notin> fst ` set img"
  shows "(\<exists>e. fst (validator_lambda_handler event ctx out) = Inl e) \<and>
         ((\<forall>img\<in>set (takeWhile (\<lambda>img. ''value'' \<in> fst ` set img) imgs).
             \<exists>s. record_id (JObj img) = Inr s) \<longrightarrow>
          (\<exists>x. fst (validator_lambda_handler event ctx out) = Inl (Malformed x)))"
proof (intro conjI impI)
  from process_records_fail [OF assms(2,3), of "out @ [Received event]"]
  show "\<exists>e. fst (validator_lambda_handler event ctx out) = Inl e"
    by (auto simp: validator_on_records [OF assms(1)] split: prod.splits sum.splits)
next
  assume "\<forall>img\<in>set (takeWhile (\<lambda>img. ''value'' \<in> fst ` set img) imgs).
            \<exists>s. record_id (JObj img) = Inr s"
  from process_records_malformed [OF assms(2,3) this, of "out @ [Received event]"]
  show "\<exists>x. fst (validator_lambda_handler event ctx out) = Inl (Malformed x)"
    by (auto simp: validator_on_records [OF assms(1)] split: prod.splits sum.splits)
qed

text \<open>
  A batch of three entries, the second one lacking \<open>value\<close>: the rule above gives
  the \<open>Malformed\<close> error, and it is the one for the second entry.
\<close>

theorem malformed_batch_fails_witness:
  "fst (validator_lambda_handler
          (batch [[(''id'', attr_S ''1''), (''value'', attr_S ''x'')], [(''id'', attr_S ''2'')],
                  [(''id'', attr_S ''3''), (''value'', attr_S ''y'')]]) () [])
     = Inl (Malformed (JObj [(''id'', attr_S ''2'')]))"
proof -
  let ?imgs = "[[(''id'', attr_S ''1''), (''value'', attr_S ''x'')], [(''id'', attr_S ''2'')],
                [(''id'', attr_S ''3''), (''value'', attr_S ''y'')]]"
  have bad: "\<exists>img\<in>set ?imgs. ''value'' \<notin> fst ` set img" by simp
  have ids: "\<forall>img\<in>set (takeWhile (\<lambda>img. ''value'' \<in> fst ` set img) ?imgs).
               \<exists>s. record_id (JObj img) = Inr s"
    by (simp add: record_id_def attr_S_def)
  from malformed_batch_fails [OF batch_records batch_images bad, of "()" "[]"] ids
  obtain x where x: "fst (validator_lambda_handler (batch ?imgs) () []) = Inl (Malformed x)"
    by blast
  have "fst (validator_lambda_handler (batch ?imgs) () []) =
          Inl (Malformed (JObj [(''id'', attr_S ''2'')]))"
    by (simp add: validator_lambda_handler_def batch_def entry_def py_print_def
        process_record_def new_image_of_def record_id_def attr_S_def)
  with x show ?thesis by simp
qed

text \<open>
  C1 as stated does not hold: the first entry of this batch has a \<open>value\<close> field
  and no \<open>id\<close>, the second lacks \<open>value\<close>. The acceptance line of the first entry
  raises KeyError before the second entry is reached, so the error is not \<open>Malformed\<close>.
\<close>

theorem malformed_batch_key_error:
  "fst (validator_lambda_handler
          (batch [[(''value'', attr_S ''x'')], [(''id'', attr_S ''2'')]]) () [])
     = Inl (KeyError (Key ''id''))"
  by (simp add: validator_lambda_handler_def batch_def entry_def py_print_def
      process_record_def new_image_of_def record_id_def attr_S_def)

text \<open>
  C2, as amended. For every batch in which every entry's newImage contains a
  \<open>value\<close> field and an \<open>id\<close> field holding a mapping with an \<open>S\<close> key, the handler
  returns the success result with statusCode 200 and reports each entry's id (the value
  under \<open>id.S\<close>), in batch order: after the line for the received batch it prints, for
  each entry, the image and then the id.
\<close>

theorem valid_batch_succeeds:
  assumes "subscript event (Key ''Records'') = Inr (JArr recs)"
    and "map new_image_of recs = map (\<lambda>img. Inr (JObj img)) imgs"
    and "\<forall>img\<in>set imgs. ''value'' \<in> fst ` set img"
    and "map (\<lambda>img. record_id (JObj img)) imgs = map Inr ids"
  shows "validator_lambda_handler event ctx out =
           (Inr (JObj [(''statusCode'', JNum 200)]),
            out @ Received event #
              concat (map2 (\<lambda>img s. [Processing (JObj img), Processed s]) imgs ids))"
  using process_records_accept_all [OF assms(2,3,4), of "out @ [Received event]"]
  by (simp add: validator_on_records [OF assms(1)])

text \<open>
  A batch of two complete entries (scenario A of the specification, extended).
\<close>

theorem valid_batch_succeeds_witness:
  "validator_lambda_handler
     (batch [[(''id'', attr_S ''1''), (''value'', attr_S ''x'')],
             [(''value'', attr_S ''y''), (''id'', attr_S ''2'')]]) () [] =
   (Inr (JObj [(''statusCode'', JNum 200)]),
    [Received (batch [[(''id'', attr_S ''1''), (''value'', attr_S ''x'')],
                      [(''value'', attr_S ''y''), (''id'', attr_S ''2'')]]),
     Processing (JObj [(''id'', attr_S ''1''), (''value'', attr_S ''x'')]),
     Processed (JStr ''1''),
     Processing (JObj [(''value'', attr_S ''y''), (''id'', attr_S ''2'')]),
     Processed (JStr ''2'')])"
proof -
  let ?imgs = "[[(''id'', attr_S ''1''), (''value'', attr_S ''x'')],
                [(''value'', attr_S ''y''), (''id'', attr_S ''2'')]]"
  have vals: "\<forall>img\<in>set ?imgs. ''value'' \<in> fst ` set img" by simp
  have ids: "map (\<lambda>img. record_id (JObj img)) ?imgs = map Inr [JStr ''1'', JStr ''2'']"
    by (simp add: record_id_def attr_S_def)
  from valid_batch_succeeds [OF batch_records batch_images vals ids, of "()" "[]"]
  show ?thesis by simp
qed

text \<open>
  C2 as stated does not hold: the only entry of this batch contains a \<open>value\<close>
  field, and the handler raises KeyError on \<open>id\<close> instead of returning success.
\<close>

theorem valid_batch_without_id_key_error:
  "validator_lambda_handler (batch [[(''value'', attr_S ''x'')]]) () [] =
     (Inl (KeyError (Key ''id'')),
      [Received (batch [[(''value'', attr_S ''x'')]]),
       Processing (JObj [(''value'', attr_S ''x'')])])"
  by (simp add: validator_lambda_handler_def batch_def entry_def py_print_def
      process_record_def new_image_of_def record_id_def attr_S_def)

text \<open>
  C3, as amended. For every batch whose first entry lacking a \<open>value\<close> field is
  preceded only by entries with a \<open>value\<close> field and an \<open>id\<close> field holding a mapping
  with an \<open>S\<close> key, the error carries the image of that first malformed entry, and
  nothing after it is processed: the output ends with the line for the malformed entry,
  whatever follows it in the batch.
\<close>

theorem first_malformed_reported:
  assumes "subscript event (Key ''Records'') = Inr (JArr recs)"
    and "map new_image_of recs = map (\<lambda>img. Inr (JObj img)) (pre @ bad # post)"
    and "\<forall>img\<in>set pre. ''value'' \<in> fst ` set img"
    and "map (\<lambda>img. record_id (JObj img)) pre = map Inr ids"
    and "''value'' \<notin> fst ` set bad"
  shows "validator_lambda_handler event ctx out =
           (Inl (Malformed (JObj bad)),
            out @ Received event #
              concat (map2 (\<lambda>img s. [Processing (JObj img), Processed s]) pre ids) @
              [Processing (JObj bad)])"
proof -
  from assms(2) obtain rpre rrest where recs: "recs = rpre @ rrest"
    and rpre: "map new_image_of rpre = map (\<lambda>img. Inr (JObj img)) pre"
    and rrest: "map new_image_of rrest = map (\<lambda>img. Inr (JObj img)) (bad # post)"
    by (auto simp: map_eq_append_conv)
  from rrest obtain rbad rpost where rest: "rrest = rbad # rpost"
    and rbad: "new_image_of rbad = Inr (JObj bad)"
    by (cases rrest) auto
  show ?thesis
    using process_records_accept_all [OF rpre assms(3,4), of "out @ [Received event]"]
      process_record_reject [OF rbad assms(5)]
    by (simp add: validator_on_records [OF assms(1)] recs rest process_records_append)
qed

text \<open>
  A batch with two malformed entries, the second and the third of four: the error is
  the one for the second, and neither the third nor the fourth entry is printed.
\<close>

theorem first_malformed_reported_witness:
  "validator_lambda_handler
     (batch [[(''id'', attr_S ''1''), (''value'', attr_S ''x'')], [(''id'', attr_S ''2'')],
             [(''id'', attr_S ''3'')], [(''id'', attr_S ''4''), (''value'', attr_S ''y'')]]) () [] =
   (Inl (Malformed (JObj [(''id'', attr_S ''2'')])),
    [Received (batch [[(''id'', attr_S ''1''), (''value'', attr_S ''x'')], [(''id'', attr_S ''2'')],
             [(''id'', attr_S ''3'')], [(''id'', attr_S ''4''), (''value'', attr_S ''y'')]]),
     Processing (JObj [(''id'', attr_S ''1''), (''value'', attr_S ''x'')]),
     Processed (JStr ''1''),
     Processing (JObj [(''id'', attr_S ''2'')])])"
proof -
  let ?pre = "[[(''id'', attr_S ''1''), (''value'', attr_S ''x'')]]"
  let ?bad = "[(''id'', attr_S ''2'')]"
  let ?post = "[[(''id'', attr_S ''3'')], [(''id'', attr_S ''4''), (''value'', attr_S ''y'')]]"
  have vals: "\<forall>img\<in>set ?pre. ''value'' \<in> fst ` set img" by simp
  have ids: "map (\<lambda>img. record_id (JObj img)) ?pre = map Inr [JStr ''1'']"
    by (simp add: record_id_def attr_S_def)
  have bad: "''value'' \<notin> fst ` set ?bad" by simp
  from first_malformed_reported [OF batch_records batch_images vals ids bad,
      where post = ?post and ctx = "()" and out = "[]"]
  show ?thesis by simp
qed

text \<open>
  C3 as stated does not hold: the first entry of this batch has a \<open>value\<close> field
  and an \<open>id\<close> that is a plain string, the second lacks \<open>value\<close>. The acceptance line
  of the first entry raises TypeError, which reports no entry.
\<close>

theorem malformed_batch_type_error:
  "fst (validator_lambda_handler
          (batch [[(''id'', JStr ''1''), (''value'', attr_S ''x'')], [(''id'', attr_S ''2'')]])
          () [])
     = Inl TypeError"
  by (simp add: validator_lambda_handler_def batch_def entry_def py_print_def
      process_record_def new_image_of_def record_id_def attr_S_def)

lemma py_in_not_malformed: "py_in k x \<noteq> Inl (Malformed y)"
  by (cases "(k, x)" rule: py_in.cases) auto

lemma py_iter_not_malformed: "py_iter x \<noteq> Inl (Malformed y)"
  by (cases x) auto

lemma process_record_malformed:
  assumes "fst (process_record r out) = Inl (Malformed x)"
  shows "new_image_of r = Inr x \<and> py_in ''value'' x = Inr False"
proof (cases "new_image_of r")
  case (Inl e)
  with assms new_image_not_malformed [of r x] show ?thesis
    by (simp add: process_record_def)
next
  case image: (Inr y)
  show ?thesis
  proof (cases "py_in ''value'' y")
    case (Inl e)
    with assms image py_in_not_malformed [of "''value''" y x] show ?thesis
      by (simp add: process_record_def)
  next
    case (Inr present)
    show ?thesis
    proof (cases present)
      case False
      with assms image Inr show ?thesis by (simp add: process_record_def)
    next
      case True
      with assms image Inr record_id_not_malformed [of y x] show ?thesis
        by (auto simp: process_record_def Let_def split: sum.splits)
    qed
  qed
qed

lemma process_record_accepted:
  assumes "fst (process_record r out) = Inr u"
  shows "\<exists>y. new_image_of r = Inr y \<and> py_in ''value'' y = Inr True"
  using assms
  by (auto simp: process_record_def Let_def split: sum.splits if_splits)

lemma process_records_malformed_at:
  assumes "fst (process_records recs out) = Inl (Malformed x)"
  shows "\<exists>pre r post. recs = pre @ r # post \<and> new_image_of r = Inr x \<and>
           py_in ''value'' x = Inr False \<and>
           (\<forall>p\<in>set pre. \<exists>y. new_image_of p = Inr y \<and> py_in ''value'' y = Inr True)"
  using assms
proof (induction recs arbitrary: out)
  case Nil
  then show ?case by simp
next
  case (Cons r recs)
  obtain res out1 where one: "process_record r out = (res, out1)"
    by (cases "process_record r out")
  show ?case
  proof (cases res)
    case (Inl e)
    with Cons.prems one have "fst (process_record r out) = Inl (Malformed x)" by simp
    from process_record_malformed [OF this]
    show ?thesis by (intro exI [of _ "[]"] exI [of _ r] exI [of _ recs]) simp
  next
    case (Inr u)
    with one have "fst (process_record r out) = Inr u" by simp
    from process_record_accepted [OF this] obtain y where
      y: "new_image_of r = Inr y" "py_in ''value'' y = Inr True" by blast
    from Cons.prems one Inr have "fst (process_records recs out1) = Inl (Malformed x)"
      by simp
    from Cons.IH [OF this] obtain pre b post where
      "recs = pre @ b # post" "new_image_of b = Inr x" "py_in ''value'' x = Inr False"
      "\<forall>p\<in>set pre. \<exists>y. new_image_of p = Inr y \<and> py_in ''value'' y = Inr True"
      by blast
    with y show ?thesis
      by (intro exI [of _ "r # pre"] exI [of _ b] exI [of _ post]) simp
  qed
qed

text \<open>
  C4. When the handler raises the \<open>Malformed\<close> error, the error carries the newImage
  of the first record lacking a \<open>value\<close> field: the event has a Records sequence, the
  value carried is the image of one of its records, \<open>'value' in\<close> is false of it (for a
  mapping: \<open>value\<close> is not among its keys), and it is true of the image of every record
  before it. Nothing is asked of the records after it, nor of the rest of the event.
\<close>

theorem malformed_error_carries_image:
  assumes "fst (validator_lambda_handler event ctx out) = Inl (Malformed x)"
  shows "\<exists>records recs pre r post.
           subscript event (Key ''Records'') = Inr records \<and> py_iter records = Inr recs \<and>
           recs = pre @ r # post \<and> new_image_of r = Inr x \<and>
           py_in ''value'' x = Inr False \<and>
           (\<forall>img. x = JObj img \<longrightarrow> ''value'' \<notin> fst ` set img) \<and>
           (\<forall>p\<in>set pre. \<exists>y. new_image_of p = Inr y \<and> py_in ''value'' y = Inr True \<and>
              (\<forall>img. y = JObj img \<longrightarrow> ''value'' \<in> fst ` set img))"
proof -
  from assms subscript_not_malformed [of event "Key ''Records''" x]
  obtain records where records: "subscript event (Key ''Records'') = Inr records"
    by (cases "subscript event (Key ''Records'')")
       (auto simp: validator_lambda_handler_def Let_def)
  from assms records py_iter_not_malformed [of records x]
  obtain recs where recs: "py_iter records = Inr recs"
    by (cases "py_iter records") (auto simp: validator_lambda_handler_def Let_def)
  from assms records recs
  have "fst (process_records recs (py_print (Received event) out)) = Inl (Malformed x)"
    by (auto simp: validator_lambda_handler_def Let_def split: prod.splits sum.splits)
  from process_records_malformed_at [OF this] obtain pre r post where
    at: "recs = pre @ r # post" "new_image_of r = Inr x" "py_in ''value'' x = Inr False"
    and before: "\<forall>p\<in>set pre. \<exists>y. new_image_of p = Inr y \<and> py_in ''value'' y = Inr True"
    by blast
  from at(3) have lacks: "\<forall>img. x = JObj img \<longrightarrow> ''value'' \<notin> fst ` set img"
    by force
  from before have before': "\<forall>p\<in>set pre. \<exists>y. new_image_of p = Inr y \<and>
      py_in ''value'' y = Inr True \<and> (\<forall>img. y = JObj img \<longrightarrow> ''value'' \<in> fst ` set img)"
    by force
  from records recs at lacks before' show ?thesis by blast
qed

text \<open>
  Scenario B of the specification, followed by a record without \<open>dynamodb\<close>, which
  the loop never reaches.
\<close>

theorem malformed_error_carries_image_witness:
  "fst (validator_lambda_handler
          (JObj [(''Records'',
                  JArr [entry [(''id'', attr_S ''1''), (''value'', attr_S ''x'')],
                        entry [(''id'', attr_S ''2'')],
                        JObj [(''eventName'', JStr ''REMOVE'')]])]) () [])
     = Inl (Malformed (JObj [(''id'', attr_S ''2'')])) \<and>
   (\<exists>records recs pre r post.
      subscript (JObj [(''Records'',
                  JArr [entry [(''id'', attr_S ''1''), (''value'', attr_S ''x'')],
                        entry [(''id'', attr_S ''2'')],
                        JObj [(''eventName'', JStr ''REMOVE'')]])]) (Key ''Records'')
        = Inr records \<and> py_iter records = Inr recs \<and>
      recs = pre @ r # post \<and> new_image_of r = Inr (JObj [(''id'', attr_S ''2'')]) \<and>
      py_in ''value'' (JObj [(''id'', attr_S ''2'')]) = Inr False \<and>
      (\<forall>img. JObj [(''id'', attr_S ''2'')] = JObj img \<longrightarrow> ''value'' \<notin> fst ` set img) \<and>
      (\<forall>p\<in>set pre. \<exists>y. new_image_of p = Inr y \<and> py_in ''value'' y = Inr True \<and>
         (\<forall>img. y = JObj img \<longrightarrow> ''value'' \<in> fst ` set img)))"
proof -
  let ?event = "JObj [(''Records'',
                  JArr [entry [(''id'', attr_S ''1''), (''value'', attr_S ''x'')],
                        entry [(''id'', attr_S ''2'')],
                        JObj [(''eventName'', JStr ''REMOVE'')]])]"
  have raised: "fst (validator_lambda_handler ?event () []) =
                  Inl (Malformed (JObj [(''id'', attr_S ''2'')]))"
    by (simp add: validator_lambda_handler_def entry_def py_print_def
        process_record_def new_image_of_def record_id_def attr_S_def)
  from malformed_error_carries_image [OF raised] raised
  show ?thesis by (intro conjI) assumption+
qed

lemma new_image_missing_key:
  assumes "map_of rkvs ''dynamodb'' = None \<or>
           (\<exists>d. map_of rkvs ''dynamodb'' = Some (JObj d) \<and> map_of d ''NewImage'' = None)"
  shows "new_image_of (JObj rkvs) = Inl (KeyError (Key ''dynamodb'')) \<or>
         new_image_of (JObj rkvs) = Inl (KeyError (Key ''NewImage''))"
  using assms by (auto simp: new_image_of_def)

lemma process_records_broken:
  assumes "new_image_of r = Inl e"
  shows "\<exists>e'. fst (process_records (pre @ r # post) out) = Inl e'"
proof (cases "process_records pre out")
  case (Pair res out1)
  show ?thesis
  proof (cases res)
    case (Inl e')
    with Pair show ?thesis by (simp add: process_records_append)
  next
    case (Inr u)
    with Pair process_record_no_image [OF assms, of out1] show ?thesis
      by (simp add: process_records_append)
  qed
qed

lemma process_records_unclassified:
  assumes "map new_image_of pre = map (\<lambda>img. Inr (JObj img)) imgs"
    and "\<forall>img\<in>set imgs. ''value'' \<in> fst ` set img"
    and "new_image_of r = Inl e"
  shows "\<exists>e'. fst (process_records (pre @ r # post) out) = Inl e' \<and> (\<forall>x. e' \<noteq> Malformed x)"
  using assms(1,2)
proof (induction pre arbitrary: imgs out)
  case Nil
  have "e \<noteq> Malformed x" for x
    using assms(3) new_image_not_malformed [of r x] by auto
  then show ?case using process_record_no_image [OF assms(3), of out] by simp
next
  case (Cons p pre)
  from Cons.prems(1) obtain img imgs' where imgs: "imgs = img # imgs'"
    and p: "new_image_of p = Inr (JObj img)"
    and rest: "map new_image_of pre = map (\<lambda>img. Inr (JObj img)) imgs'"
    by (cases imgs) auto
  from Cons.prems(2) imgs have v: "''value'' \<in> fst ` set img"
    and vs: "\<forall>img\<in>set imgs'. ''value'' \<in> fst ` set img" by auto
  show ?case
  proof (cases "record_id (JObj img)")
    case (Inl e1)
    have "e1 \<noteq> Malformed x" for x
      using Inl record_id_not_malformed [of "JObj img" x] by auto
    then show ?thesis using process_record_no_id [OF p v Inl, of out] by simp
  next
    case (Inr s)
    then show ?thesis
      using process_record_accept [OF p v Inr, of out] Cons.IH [OF rest vs] by simp
  qed
qed

text \<open>
  C6. There is a batch in which every entry's newImage contains a \<open>value\<close> field and
  some entry's newImage lacks an \<open>id\<close> field, on which the handler raises KeyError on
  \<open>id\<close> (at the acceptance line) instead of returning success.
\<close>

theorem valid_batch_missing_id_raises:
  "\<exists>imgs. list_all (\<lambda>img. ''value'' \<in> fst ` set img) imgs \<and>
          list_ex (\<lambda>img. ''id'' \<notin> fst ` set img) imgs \<and>
          fst (validator_lambda_handler (batch imgs) ctx out) = Inl (KeyError (Key ''id''))"
  by (rule exI [of _ "[[(''id'', attr_S ''1''), (''value'', attr_S ''x'')],
                      [(''value'', attr_S ''y'')],
                      [(''id'', attr_S ''3''), (''value'', attr_S ''z'')]]"])
     (simp add: validator_lambda_handler_def batch_def entry_def py_print_def
        process_record_def new_image_of_def record_id_def attr_S_def)

text \<open>
  C7, as amended. An event that is a mapping without a \<open>Records\<close> key raises
  KeyError on \<open>Records\<close>. An event whose Records sequence contains a record missing
  the \<open>dynamodb\<close> key, or whose \<open>dynamodb\<close> mapping misses the \<open>NewImage\<close> key,
  raises an error and returns no success result; that error is not the \<open>Malformed\<close>
  error whenever every record before it is an entry whose newImage is a mapping with a
  \<open>value\<close> field.
\<close>

theorem malformed_structure_fails:
  "(map_of kvs ''Records'' = None \<longrightarrow>
      fst (validator_lambda_handler (JObj kvs) ctx out) = Inl (KeyError (Key ''Records''))) \<and>
   (subscript event (Key ''Records'') = Inr (JArr (pre @ JObj rkvs # post)) \<and>
    (map_of rkvs ''dynamodb'' = None \<or>
     (\<exists>d. map_of rkvs ''dynamodb'' = Some (JObj d) \<and> map_of d ''NewImage'' = None)) \<longrightarrow>
      (\<exists>e. fst (validator_lambda_handler event ctx out) = Inl e) \<and>
      (map new_image_of pre = map (\<lambda>img. Inr (JObj img)) imgs \<and>
       (\<forall>img\<in>set imgs. ''value'' \<in> fst ` set img) \<longrightarrow>
         (\<exists>e. fst (validator_lambda_handler event ctx out) = Inl e \<and>
              (\<forall>x. e \<noteq> Malformed x))))"
proof (intro conjI impI)
  assume "map_of kvs ''Records'' = None"
  then show "fst (validator_lambda_handler (JObj kvs) ctx out) = Inl (KeyError (Key ''Records''))"
    by (simp add: validator_lambda_handler_def)
next
  assume a: "subscript event (Key ''Records'') = Inr (JArr (pre @ JObj rkvs # post)) \<and>
    (map_of rkvs ''dynamodb'' = None \<or>
     (\<exists>d. map_of rkvs ''dynamodb'' = Some (JObj d) \<and> map_of d ''NewImage'' = None))"
  then obtain e where e: "new_image_of (JObj rkvs) = Inl e"
    using new_image_missing_key [of rkvs] by blast
  from a have recs: "subscript event (Key ''Records'') = Inr (JArr (pre @ JObj rkvs # post))"
    by simp
  from process_records_broken [OF e, of pre post "out @ [Received event]"]
  show "\<exists>e. fst (validator_lambda_handler event ctx out) = Inl e"
    by (auto simp: validator_on_records [OF recs] split: prod.splits sum.splits)
  assume "map new_image_of pre = map (\<lambda>img. Inr (JObj img)) imgs \<and>
       (\<forall>img\<in>set imgs. ''value'' \<in> fst ` set img)"
  then have shape: "map new_image_of pre = map (\<lambda>img. Inr (JObj img)) imgs"
    and vals: "\<forall>img\<in>set imgs. ''value'' \<in> fst ` set img" by simp_all
  from process_records_unclassified [OF shape vals e, of post "out @ [Received event]"]
  show "\<exists>e. fst (validator_lambda_handler event ctx out) = Inl e \<and> (\<forall>x. e \<noteq> Malformed x)"
    by (auto simp: validator_on_records [OF recs] split: prod.splits sum.splits)
qed

text \<open>
  An event without \<open>Records\<close>, and a batch whose second record has no
  \<open>NewImage\<close> under \<open>dynamodb\<close>.
\<close>

theorem malformed_structure_fails_witness:
  "fst (validator_lambda_handler (JObj [(''Items'', JArr [])]) () []) =
     Inl (KeyError (Key ''Records'')) \<and>
   (\<exists>e. fst (validator_lambda_handler
              (JObj [(''Records'',
                      JArr [entry [(''id'', attr_S ''1''), (''value'', attr_S ''x'')],
                            JObj [(''dynamodb'', JObj [(''Keys'', JObj [])])],
                            entry [(''id'', attr_S ''3'')]])]) () []) = Inl e \<and>
        (\<forall>x. e \<noteq> Malformed x))"
proof -
  let ?pre = "[entry [(''id'', attr_S ''1''), (''value'', attr_S ''x'')]]"
  let ?rkvs = "[(''dynamodb'', JObj [(''Keys'', JObj [])])]"
  let ?post = "[entry [(''id'', attr_S ''3'')]]"
  let ?event = "JObj [(''Records'', JArr (?pre @ JObj ?rkvs # ?post))]"
  let ?imgs = "[[(''id'', attr_S ''1''), (''value'', attr_S ''x'')]]"
  have none: "map_of [(''Items'', JArr [])] ''Records'' = None" by simp
  have recs: "subscript ?event (Key ''Records'') = Inr (JArr (?pre @ JObj ?rkvs # ?post))"
    by simp
  have broken: "map_of ?rkvs ''dynamodb'' = None \<or>
     (\<exists>d. map_of ?rkvs ''dynamodb'' = Some (JObj d) \<and> map_of d ''NewImage'' = None)"
    by simp
  have shape: "map new_image_of ?pre = map (\<lambda>img. Inr (JObj img)) ?imgs"
    by (simp add: entry_image)
  have vals: "\<forall>img\<in>set ?imgs. ''value'' \<in> fst ` set img" by simp
  from malformed_structure_fails [where kvs = "[(''Items'', JArr [])]" and event = ?event
      and pre = ?pre and rkvs = ?rkvs and post = ?post and imgs = ?imgs
      and ctx = "()" and out = "[]"]
    none recs broken shape vals
  show ?thesis by simp
qed

text \<open>
  C7 as stated does not hold: the second record of this event misses the
  \<open>dynamodb\<close> key, and the handler raises the \<open>Malformed\<close> error, for the first
  record, which lacks \<open>value\<close>.
\<close>

theorem malformed_structure_after_malformed_entry:
  "fst (validator_lambda_handler
          (JObj [(''Records'', JArr [entry [(''id'', attr_S ''1'')], JObj []])]) () [])
     = Inl (Malformed (JObj [(''id'', attr_S ''1'')]))"
  by (simp add: validator_lambda_handler_def entry_def py_print_def
      process_record_def new_image_of_def record_id_def attr_S_def)

lemma process_record_check:
  assumes "\<forall>y. new_image_of r = Inr y \<longrightarrow> py_in ''value'' y = Inr True \<longrightarrow>
             (\<exists>s. record_id y = Inr s)"
  shows "fst (process_record r out) = check_record r"
proof (cases "new_image_of r")
  case (Inl e)
  then show ?thesis by (simp add: process_record_def check_record_def)
next
  case image: (Inr y)
  show ?thesis
  proof (cases "py_in ''value'' y")
    case (Inl e)
    with image show ?thesis by (simp add: process_record_def check_record_def)
  next
    case (Inr present)
    show ?thesis
    proof (cases present)
      case False
      with image Inr show ?thesis by (simp add: process_record_def check_record_def)
    next
      case True
      with assms image Inr obtain s where "record_id y = Inr s" by auto
      with image Inr True show ?thesis
        by (simp add: process_record_def check_record_def)
    qed
  qed
qed

lemma process_records_check:
  assumes "\<forall>r\<in>set recs. \<forall>y. new_image_of r = Inr y \<longrightarrow> py_in ''value'' y = Inr True \<longrightarrow>
             (\<exists>s. record_id y = Inr s)"
  shows "fst (process_records recs out) = check_records recs"
  using assms
proof (induction recs arbitrary: out)
  case Nil
  then show ?case by simp
next
  case (Cons r recs)
  from Cons.prems have r: "\<forall>y. new_image_of r = Inr y \<longrightarrow> py_in ''value'' y = Inr True \<longrightarrow>
      (\<exists>s. record_id y = Inr s)"
    and rest: "\<forall>r\<in>set recs. \<forall>y. new_image_of r = Inr y \<longrightarrow>
      py_in ''value'' y = Inr True \<longrightarrow> (\<exists>s. record_id y = Inr s)" by simp_all
  obtain res out1 where one: "process_record r out = (res, out1)"
    by (cases "process_record r out")
  with process_record_check [OF r, of out] have res: "check_record r = res" by simp
  show ?case
    using one res Cons.IH [OF rest, of out1] by (cases res) simp_all
qed

text \<open>
  C8, as amended. The outcome of the handler (the success result, or the error with the
  image it carries) depends on the event alone: it is the same for any two contexts and
  any two states of standard output, and the handler only appends to standard output
  lines that depend on the event alone. Logging leaves the outcome what it is without
  the print statements whenever every record that passes the \<open>value\<close> check has an
  \<open>id\<close> holding a mapping with an \<open>S\<close> key, which is what the acceptance line reads.
\<close>

theorem validator_outcome_deterministic:
  "fst (validator_lambda_handler event ctx out) = fst (validator_lambda_handler event ctx' out') \<and>
   snd (validator_lambda_handler event ctx out) =
     out @ snd (validator_lambda_handler event ctx' []) \<and>
   ((\<forall>records recs. subscript event (Key ''Records'') = Inr records \<longrightarrow>
       py_iter records = Inr recs \<longrightarrow>
       (\<forall>r\<in>set recs. \<forall>y. new_image_of r = Inr y \<longrightarrow> py_in ''value'' y = Inr True \<longrightarrow>
          (\<exists>s. record_id y = Inr s))) \<longrightarrow>
    fst (validator_lambda_handler event ctx out) = validator_without_log event)"
proof (intro conjI impI)
  show "fst (validator_lambda_handler event ctx out) =
        fst (validator_lambda_handler event ctx' out')"
    using validator_out [of event ctx out ctx'] validator_out [of event ctx' out' ctx']
    by simp
next
  show "snd (validator_lambda_handler event ctx out) =
        out @ snd (validator_lambda_handler event ctx' [])"
    using validator_out [of event ctx out ctx'] by simp
next
  assume ids: "\<forall>records recs. subscript event (Key ''Records'') = Inr records \<longrightarrow>
       py_iter records = Inr recs \<longrightarrow>
       (\<forall>r\<in>set recs. \<forall>y. new_image_of r = Inr y \<longrightarrow> py_in ''value'' y = Inr True \<longrightarrow>
          (\<exists>s. record_id y = Inr s))"
  show "fst (validator_lambda_handler event ctx out) = validator_without_log event"
  proof (cases "subscript event (Key ''Records'')")
    case (Inl e)
    then show ?thesis
      by (simp add: validator_lambda_handler_def validator_without_log_def)
  next
    case records: (Inr records)
    show ?thesis
    proof (cases "py_iter records")
      case (Inl e)
      with records show ?thesis
        by (simp add: validator_lambda_handler_def validator_without_log_def)
    next
      case (Inr recs)
      from ids records Inr
      have "\<forall>r\<in>set recs. \<forall>y. new_image_of r = Inr y \<longrightarrow> py_in ''value'' y = Inr True \<longrightarrow>
              (\<exists>s. record_id y = Inr s)" by blast
      from process_records_check [OF this, of "py_print (Received event) out"]
      show ?thesis
        using records Inr
        by (cases "process_records recs (py_print (Received event) out)";
            cases "check_records recs")
           (auto simp: validator_lambda_handler_def validator_without_log_def)
    qed
  qed
qed

text \<open>
  Scenario B of the specification, under two contexts and two states of standard
  output, and against the validator that logs nothing.
\<close>

theorem validator_outcome_deterministic_witness:
  "fst (validator_lambda_handler
          (batch [[(''id'', attr_S ''1''), (''value'', attr_S ''x'')], [(''id'', attr_S ''2'')]])
          () []) =
   fst (validator_lambda_handler
          (batch [[(''id'', attr_S ''1''), (''value'', attr_S ''x'')], [(''id'', attr_S ''2'')]])
          True [Received JNull]) \<and>
   snd (validator_lambda_handler
          (batch [[(''id'', attr_S ''1''), (''value'', attr_S ''x'')], [(''id'', attr_S ''2'')]])
          () [Processed JNull]) =
   [Processed JNull] @
   snd (validator_lambda_handler
          (batch [[(''id'', attr_S ''1''), (''value'', attr_S ''x'')], [(''id'', attr_S ''2'')]])
          True []) \<and>
   fst (validator_lambda_handler
          (batch [[(''id'', attr_S ''1''), (''value'', attr_S ''x'')], [(''id'', attr_S ''2'')]])
          () []) =
   validator_without_log
     (batch [[(''id'', attr_S ''1''), (''value'', attr_S ''x'')], [(''id'', attr_S ''2'')]]) \<and>
   validator_without_log
     (batch [[(''id'', attr_S ''1''), (''value'', attr_S ''x'')], [(''id'', attr_S ''2'')]]) =
   Inl (Malformed (JObj [(''id'', attr_S ''2'')]))"
proof -
  let ?event = "batch [[(''id'', attr_S ''1''), (''value'', attr_S ''x'')],
                       [(''id'', attr_S ''2'')]]"
  have ids: "\<forall>records recs. subscript ?event (Key ''Records'') = Inr records \<longrightarrow>
       py_iter records = Inr recs \<longrightarrow>
       (\<forall>r\<in>set recs. \<forall>y. new_image_of r = Inr y \<longrightarrow> py_in ''value'' y = Inr True \<longrightarrow>
          (\<exists>s. record_id y = Inr s))"
    by (auto simp: batch_def entry_def new_image_of_def record_id_def attr_S_def)
  have silent: "validator_without_log ?event = Inl (Malformed (JObj [(''id'', attr_S ''2'')]))"
    by (simp add: validator_without_log_def batch_def entry_def check_record_def
        new_image_of_def)
  from validator_outcome_deterministic [of ?event "()" "[]" True "[Received JNull]"] ids
  have a: "fst (validator_lambda_handler ?event () []) =
           fst (validator_lambda_handler ?event True [Received JNull])"
    and c: "fst (validator_lambda_handler ?event () []) = validator_without_log ?event"
    by blast+
  from validator_outcome_deterministic [of ?event "()" "[Processed JNull]" True]
  have b: "snd (validator_lambda_handler ?event () [Processed JNull]) =
           [Processed JNull] @ snd (validator_lambda_handler ?event True [])"
    by blast
  from a b c silent show ?thesis by (intro conjI)
qed

text \<open>
  C8 as stated does not hold: the second entry of this batch passes the \<open>value\<close>
  check and has no \<open>id\<close>. Without the print statements the batch is accepted; with
  them, formatting the acceptance line raises KeyError, so logging decides the outcome.
\<close>

theorem acceptance_line_changes_outcome:
  "fst (validator_lambda_handler
          (batch [[(''id'', attr_S ''1''), (''value'', attr_S ''x'')], [(''value'', attr_S ''y'')]])
          () []) = Inl (KeyError (Key ''id'')) \<and>
   validator_without_log
     (batch [[(''id'', attr_S ''1''), (''value'', attr_S ''x'')], [(''value'', attr_S ''y'')]])
     = Inr (JObj [(''statusCode'', JNum 200)])"
  by (simp add: validator_lambda_handler_def validator_without_log_def batch_def entry_def
      py_print_def process_record_def check_record_def new_image_of_def record_id_def
      attr_S_def status_ok_def)

section \<open>Properties of the copier\<close>

lemma insert_records_accepted:
  assumes "\<forall>r\<in>set recs. \<forall>t. put_item sv table_name r t = Inr (upd r t)"
  shows "insert_records sv recs w =
           (Inr (), w\<lparr>stdout := stdout w @ map Inserting recs,
                       calls := calls w @ map (PutItem table_name) recs,
                       table := foldl (\<lambda>t r. upd r t) (table w) recs\<rparr>)"
  using assms
proof (induction recs arbitrary: w)
  case Nil
  then show ?case by simp
next
  case (Cons r recs)
  from Cons.prems have r: "put_item sv table_name r (table w) = Inr (upd r (table w))"
    and rest: "\<forall>r\<in>set recs. \<forall>t. put_item sv table_name r t = Inr (upd r t)" by simp_all
  show ?case
    by (simp add: r Cons.IH [OF rest] py_print_def)
qed

text \<open>
  C9, as amended. For every notification event naming a bucket and an object key whose
  object is fetched and parses as a JSON sequence of records, each of which the table
  service accepts, the handler sends one write to the table \<open>dynotbl_1\<close> per record, in
  sequence order, after the single fetch, and returns statusCode 200 with the body
  "Data inserted into DynamoDB"; the table ends as the writes applied in that order.
\<close>

theorem copier_writes_each_record:
  assumes "subscripts event bucket_path = Inr bucket"
    and "subscripts event key_path = Inr key"
    and "get_object sv bucket key = Inr content"
    and "loads sv content = Inr (JArr records)"
    and "\<forall>r\<in>set records. \<forall>t. put_item sv table_name r t = Inr (upd r t)"
  shows "copier_lambda_handler sv event ctx w =
           (Inr (JObj [(''statusCode'', JNum 200),
                       (''body'', JStr ''Data inserted into DynamoDB'')]),
            w\<lparr>stdout := stdout w @ ReceivedEvent event # map Inserting records,
               calls := calls w @ GetObject bucket key # map (PutItem table_name) records,
               table := foldl (\<lambda>t r. upd r t) (table w) records\<rparr>)"
  unfolding copier_lambda_handler_def inserted_ok_def Let_def
  by (simp add: assms(1-4) insert_records_accepted [OF assms(5)] py_print_def)

text \<open>
  Three records, the third with the key of the first: three writes in order, and the
  table holds the later item for that key.
\<close>

theorem copier_writes_each_record_witness:
  "copier_lambda_handler example_services (s3_event [s3_record ''inbox'' ''items.json''])
     () empty_world =
   (Inr (JObj [(''statusCode'', JNum 200), (''body'', JStr ''Data inserted into DynamoDB'')]),
    \<lparr>stdout = [ReceivedEvent (s3_event [s3_record ''inbox'' ''items.json'']),
               Inserting (JObj [(''id'', JStr ''1''), (''value'', JStr ''x'')]),
               Inserting (JObj [(''id'', JStr ''2'')]),
               Inserting (JObj [(''id'', JStr ''1''), (''value'', JStr ''y'')])],
     calls = [GetObject (JStr ''inbox'') (JStr ''items.json''),
              PutItem ''dynotbl_1'' (JObj [(''id'', JStr ''1''), (''value'', JStr ''x'')]),
              PutItem ''dynotbl_1'' (JObj [(''id'', JStr ''2'')]),
              PutItem ''dynotbl_1'' (JObj [(''id'', JStr ''1''), (''value'', JStr ''y'')])],
     table = [JObj [(''id'', JStr ''2'')],
              JObj [(''id'', JStr ''1''), (''value'', JStr ''y'')]]\<rparr>)"
proof -
  let ?event = "s3_event [s3_record ''inbox'' ''items.json'']"
  let ?records = "[JObj [(''id'', JStr ''1''), (''value'', JStr ''x'')],
                   JObj [(''id'', JStr ''2'')],
                   JObj [(''id'', JStr ''1''), (''value'', JStr ''y'')]]"
  have b: "subscripts ?event bucket_path = Inr (JStr ''inbox'')"
    by (simp add: s3_event_def s3_record_def bucket_path_def)
  have k: "subscripts ?event key_path = Inr (JStr ''items.json'')"
    by (simp add: s3_event_def s3_record_def key_path_def)
  have g: "get_object example_services (JStr ''inbox'') (JStr ''items.json'') = Inr ''items''"
    by (simp add: example_services_def)
  have l: "loads example_services ''items'' = Inr (JArr ?records)"
    by (simp add: example_services_def)
  have p: "\<forall>r\<in>set ?records. \<forall>t.
             put_item example_services table_name r t = Inr (keyed_upsert r t)"
    by (simp add: example_services_def keyed_put_item_def)
  from copier_writes_each_record [OF b k g l p, of "()" empty_world]
  show ?thesis
    by (simp add: empty_world_def table_name_def keyed_upsert_def)
qed

text \<open>
  C9 as stated does not hold: the object named by this event parses as a sequence of
  three records, the table rejects the second, which has no key, and the handler raises
  at that write: no success result, and no write for the third record.
\<close>

theorem copier_stops_at_rejected_write:
  "copier_lambda_handler example_services (s3_event [s3_record ''inbox'' ''keyless.json''])
     () empty_world =
   (Inl (ServiceError ''ValidationException''),
    \<lparr>stdout = [ReceivedEvent (s3_event [s3_record ''inbox'' ''keyless.json'']),
               Inserting (JObj [(''id'', JStr ''1'')]),
               Inserting (JObj [(''name'', JStr ''n'')])],
     calls = [GetObject (JStr ''inbox'') (JStr ''keyless.json''),
              PutItem ''dynotbl_1'' (JObj [(''id'', JStr ''1'')]),
              PutItem ''dynotbl_1'' (JObj [(''name'', JStr ''n'')])],
     table = [JObj [(''id'', JStr ''1'')]]\<rparr>)"
  by (simp add: copier_lambda_handler_def example_services_def s3_event_def s3_record_def
      bucket_path_def key_path_def empty_world_def table_name_def keyed_put_item_def
      keyed_upsert_def py_print_def)

lemma insert_records_stdout:
  assumes "calls w = calls w'" and "table w = table w'"
  shows "fst (insert_records sv recs w) = fst (insert_records sv recs w') \<and>
         calls (snd (insert_records sv recs w)) = calls (snd (insert_records sv recs w')) \<and>
         table (snd (insert_records sv recs w)) = table (snd (insert_records sv recs w')) \<and>
         (\<exists>lines. stdout (snd (insert_records sv recs w)) = stdout w @ lines \<and>
                  stdout (snd (insert_records sv recs w')) = stdout w' @ lines)"
  using assms
proof (induction recs arbitrary: w w')
  case Nil
  then show ?case by simp
next
  case (Cons r recs)
  let ?w1 = "w\<lparr>stdout := stdout w @ [Inserting r], calls := calls w @ [PutItem table_name r]\<rparr>"
  let ?w1' = "w'\<lparr>stdout := stdout w' @ [Inserting r], calls := calls w' @ [PutItem table_name r]\<rparr>"
  show ?case
  proof (cases "put_item sv table_name r (table w)")
    case (Inl e)
    with Cons.prems show ?thesis by (simp add: py_print_def)
  next
    case (Inr t)
    have c: "calls (?w1\<lparr>table := t\<rparr>) = calls (?w1'\<lparr>table := t\<rparr>)"
      and t: "table (?w1\<lparr>table := t\<rparr>) = table (?w1'\<lparr>table := t\<rparr>)"
      using Cons.prems by simp_all
    from Cons.IH [OF c t] obtain lines where
      "fst (insert_records sv recs (?w1\<lparr>table := t\<rparr>)) =
         fst (insert_records sv recs (?w1'\<lparr>table := t\<rparr>))"
      "calls (snd (insert_records sv recs (?w1\<lparr>table := t\<rparr>))) =
         calls (snd (insert_records sv recs (?w1'\<lparr>table := t\<rparr>)))"
      "table (snd (insert_records sv recs (?w1\<lparr>table := t\<rparr>))) =
         table (snd (insert_records sv recs (?w1'\<lparr>table := t\<rparr>)))"
      "stdout (snd (insert_records sv recs (?w1\<lparr>table := t\<rparr>))) =
         stdout (?w1\<lparr>table := t\<rparr>) @ lines"
      "stdout (snd (insert_records sv recs (?w1'\<lparr>table := t\<rparr>))) =
         stdout (?w1'\<lparr>table := t\<rparr>) @ lines"
      by blast
    with Inr Cons.prems show ?thesis
      by (simp add: py_print_def)
  qed
qed

lemma first_record_paths:
  assumes "subscript event (Key ''Records'') = Inr (JArr (first # others))"
  shows "subscripts event bucket_path = subscripts first [Key ''s3'', Key ''bucket'', Key ''name'']"
    and "subscripts event key_path = subscripts first [Key ''s3'', Key ''object'', Key ''key'']"
  using assms by (simp_all add: bucket_path_def key_path_def)

text \<open>
  C10. The handler reads the bucket name and the object key from the first element of
  the event's Records sequence only: two events whose Records begin with the same element
  give the same outcome, the same requests to the object store and the table (so no fetch
  and no write for any further record), the same table, and the same output but for the
  first line, which prints the whole event.
\<close>

theorem copier_reads_first_record_only:
  assumes "subscript event (Key ''Records'') = Inr (JArr (first # others))"
    and "subscript event' (Key ''Records'') = Inr (JArr (first # others'))"
  shows "fst (copier_lambda_handler sv event ctx w) = fst (copier_lambda_handler sv event' ctx w) \<and>
         calls (snd (copier_lambda_handler sv event ctx w)) =
           calls (snd (copier_lambda_handler sv event' ctx w)) \<and>
         table (snd (copier_lambda_handler sv event ctx w)) =
           table (snd (copier_lambda_handler sv event' ctx w)) \<and>
         (\<exists>lines.
            stdout (snd (copier_lambda_handler sv event ctx w)) =
              stdout w @ ReceivedEvent event # lines \<and>
            stdout (snd (copier_lambda_handler sv event' ctx w)) =
              stdout w @ ReceivedEvent event' # lines)"
proof -
  define B where "B = subscripts first [Key ''s3'', Key ''bucket'', Key ''name'']"
  define K where "K = subscripts first [Key ''s3'', Key ''object'', Key ''key'']"
  have p: "subscripts event bucket_path = B" "subscripts event key_path = K"
    unfolding B_def K_def by (rule first_record_paths [OF assms(1)])+
  have p': "subscripts event' bucket_path = B" "subscripts event' key_path = K"
    unfolding B_def K_def by (rule first_record_paths [OF assms(2)])+
  show ?thesis
  proof (cases B)
    case (Inl e)
    then show ?thesis
      unfolding copier_lambda_handler_def Let_def by (simp add: p p' py_print_def)
  next
    case bucket: (Inr bucket)
    show ?thesis
    proof (cases K)
      case (Inl e)
      then show ?thesis
        unfolding copier_lambda_handler_def Let_def by (simp add: p p' bucket py_print_def)
    next
      case key: (Inr key)
      let ?w1 = "w\<lparr>stdout := stdout w @ [ReceivedEvent event],
                     calls := calls w @ [GetObject bucket key]\<rparr>"
      let ?w1' = "w\<lparr>stdout := stdout w @ [ReceivedEvent event'],
                      calls := calls w @ [GetObject bucket key]\<rparr>"
      have head: "\<exists>lines. stdout ?w1 = stdout w @ ReceivedEvent event # lines \<and>
                          stdout ?w1' = stdout w @ ReceivedEvent event' # lines"
        by simp
      show ?thesis
      proof (cases "get_object sv bucket key")
        case (Inl e)
        then show ?thesis
          unfolding copier_lambda_handler_def Let_def
          by (simp add: p p' bucket key py_print_def)
      next
        case content: (Inr content)
        show ?thesis
        proof (cases "loads sv content")
          case (Inl e)
          then show ?thesis
            unfolding copier_lambda_handler_def Let_def
            by (simp add: p p' bucket key content py_print_def)
        next
          case records: (Inr records)
          show ?thesis
          proof (cases "py_iter records")
            case (Inl e)
            then show ?thesis
              unfolding copier_lambda_handler_def Let_def
              by (simp add: p p' bucket key content records py_print_def)
          next
            case (Inr recs)
            have run: "copier_lambda_handler sv event ctx w =
                (case insert_records sv recs ?w1 of
                   (Inl e, w2) \<Rightarrow> (Inl e, w2) | (Inr u, w2) \<Rightarrow> (Inr inserted_ok, w2))"
              unfolding copier_lambda_handler_def Let_def
              by (simp add: p bucket key content records Inr py_print_def)
            have run': "copier_lambda_handler sv event' ctx w =
                (case insert_records sv recs ?w1' of
                   (Inl e, w2) \<Rightarrow> (Inl e, w2) | (Inr u, w2) \<Rightarrow> (Inr inserted_ok, w2))"
              unfolding copier_lambda_handler_def Let_def
              by (simp add: p' bucket key content records Inr py_print_def)
            have c: "calls ?w1 = calls ?w1'" and t: "table ?w1 = table ?w1'" by simp_all
            from insert_records_stdout [OF c t, of sv recs] obtain lines where
              f: "fst (insert_records sv recs ?w1) = fst (insert_records sv recs ?w1')"
              and cs: "calls (snd (insert_records sv recs ?w1)) =
                       calls (snd (insert_records sv recs ?w1'))"
              and ts: "table (snd (insert_records sv recs ?w1)) =
                       table (snd (insert_records sv recs ?w1'))"
              and o1: "stdout (snd (insert_records sv recs ?w1)) = stdout ?w1 @ lines"
              and o2: "stdout (snd (insert_records sv recs ?w1')) = stdout ?w1' @ lines"
              by blast
            obtain res w2 where r: "insert_records sv recs ?w1 = (res, w2)"
              by (cases "insert_records sv recs ?w1")
            obtain res' w2' where r': "insert_records sv recs ?w1' = (res', w2')"
              by (cases "insert_records sv recs ?w1'")
            from f cs ts o1 o2 r r' have "res = res'" "calls w2 = calls w2'"
              "table w2 = table w2'"
              "stdout w2 = stdout w @ ReceivedEvent event # lines"
              "stdout w2' = stdout w @ ReceivedEvent event' # lines"
              by simp_all
            then show ?thesis
              unfolding run run' r r' by (cases res') auto
          qed
        qed
      qed
    qed
  qed
qed

text \<open>
  An event with a second record naming another object, against the event with the
  first record alone.
\<close>

theorem copier_reads_first_record_only_witness:
  "fst (copier_lambda_handler example_services
          (s3_event [s3_record ''inbox'' ''items.json'', s3_record ''inbox'' ''keyless.json''])
          () empty_world) =
   fst (copier_lambda_handler example_services
          (s3_event [s3_record ''inbox'' ''items.json'']) () empty_world) \<and>
   calls (snd (copier_lambda_handler example_services
          (s3_event [s3_record ''inbox'' ''items.json'', s3_record ''inbox'' ''keyless.json''])
          () empty_world)) =
   calls (snd (copier_lambda_handler example_services
          (s3_event [s3_record ''inbox'' ''items.json'']) () empty_world)) \<and>
   table (snd (copier_lambda_handler example_services
          (s3_event [s3_record ''inbox'' ''items.json'', s3_record ''inbox'' ''keyless.json''])
          () empty_world)) =
   table (snd (copier_lambda_handler example_services
          (s3_event [s3_record ''inbox'' ''items.json'']) () empty_world))"
proof -
  have e: "subscript (s3_event [s3_record ''inbox'' ''items.json'',
                                s3_record ''inbox'' ''keyless.json'']) (Key ''Records'') =
           Inr (JArr (s3_record ''inbox'' ''items.json'' # [s3_record ''inbox'' ''keyless.json'']))"
    by (simp add: s3_event_def)
  have e': "subscript (s3_event [s3_record ''inbox'' ''items.json'']) (Key ''Records'') =
           Inr (JArr (s3_record ''inbox'' ''items.json'' # []))"
    by (simp add: s3_event_def)
  from copier_reads_first_record_only [OF e e', of example_services "()" empty_world]
  show ?thesis by blast
qed

end
